theory Spec2Isabelle
  imports Complex_Main "HOL-Library.Multiset" "HOL-Library.AList"
begin

section \<open>The ambient state: random source and object allocation\<close>

text \<open>
  The program draws every random number from the process-wide generator
  \<^verbatim>\<open>random.random()\<close> and creates objects with the class constructors. Both are
  effects, so the model threads an environment through every call:
  \<^item> \<open>draws\<close> is the infinite sequence of samples the generator will deliver and
    \<open>cursor\<close> the index of the next one; a sample is a float of \<open>[0.0, 1.0)\<close>, taken
    here as a real number (\<open>unit_draws\<close> states the range);
  \<^item> \<open>next_oid\<close> is the identity the next constructed object receives. The classes define
    no \<^verbatim>\<open>__eq__\<close>, so Python compares particles by identity; a particle carries its
    identity in the field \<open>oid\<close>, which makes equality of records the comparison that
    \<^verbatim>\<open>list.remove\<close> performs.
  Floats are modelled as reals and Python's unbounded integers as \<open>int\<close>.
\<close>

datatype error = NoChildException | ZeroDivisionError | ValueError | KeyError

record env =
  draws :: "nat \<Rightarrow> real"
  cursor :: nat
  next_oid :: nat

definition random_random :: "env \<Rightarrow> real \<times> env" where
  "random_random e = (draws e (cursor e), e\<lparr>cursor := cursor e + 1\<rparr>)"

definition unit_draws :: "env \<Rightarrow> bool" where
  "unit_draws e \<longleftrightarrow> (\<forall>n. 0 \<le> draws e n \<and> draws e n < 1)"

section \<open>class SimpleVirus\<close>

record SimpleVirus =
  oid :: nat
  maxBirthProb :: real
  clearProb :: real

definition SimpleVirus_init :: "real \<Rightarrow> real \<Rightarrow> env \<Rightarrow> SimpleVirus \<times> env" where
  "SimpleVirus_init mbp cp e =
     (\<lparr>oid = next_oid e, maxBirthProb = mbp, clearProb = cp\<rparr>,
      e\<lparr>next_oid := next_oid e + 1\<rparr>)"

definition getMaxBirthProb :: "'a SimpleVirus_scheme \<Rightarrow> real" where
  "getMaxBirthProb v = maxBirthProb v"

definition getClearProb :: "'a SimpleVirus_scheme \<Rightarrow> real" where
  "getClearProb v = clearProb v"

definition doesClear :: "'a SimpleVirus_scheme \<Rightarrow> env \<Rightarrow> bool \<times> env" where
  "doesClear v e =
     (case random_random e of (r, e1) \<Rightarrow>
        if r \<le> getClearProb v then (True, e1) else (False, e1))"

definition SimpleVirus_reproduce ::
  "SimpleVirus \<Rightarrow> real \<Rightarrow> env \<Rightarrow> (error + SimpleVirus) \<times> env" where
  "SimpleVirus_reproduce v popDensity e =
     (let repProb = getMaxBirthProb v * (1 - popDensity) in
      case random_random e of (r, e1) \<Rightarrow>
        if r \<le> repProb
        then (case SimpleVirus_init (getMaxBirthProb v) (getClearProb v) e1 of
                (child, e2) \<Rightarrow> (Inr child, e2))
        else (Inl NoChildException, e1))"

section \<open>class Patient\<close>

record 'v Patient =
  viruses :: "'v list"
  maxPop :: int

definition Patient_init :: "SimpleVirus list \<Rightarrow> int \<Rightarrow> SimpleVirus Patient" where
  "Patient_init vs mp = \<lparr>viruses = vs, maxPop = mp\<rparr>"

definition getViruses :: "('v, 'a) Patient_scheme \<Rightarrow> 'v list" where
  "getViruses h = viruses h"

definition getMaxPop :: "('v, 'a) Patient_scheme \<Rightarrow> int" where
  "getMaxPop h = maxPop h"

definition getTotalPop :: "('v, 'a) Patient_scheme \<Rightarrow> int" where
  "getTotalPop h = int (length (viruses h))"

text \<open>\<^verbatim>\<open>list.remove(x)\<close>: drops the first element equal to \<open>x\<close>, ValueError when there is none.\<close>

definition list_remove :: "'a \<Rightarrow> 'a list \<Rightarrow> error + 'a list" where
  "list_remove x xs = (if x \<in> set xs then Inr (remove1 x xs) else Inl ValueError)"

text \<open>
  The clearance loop of \<^verbatim>\<open>update\<close>: it walks the population as it was before the step
  and removes every particle that clears from the copy \<open>viruses_survived\<close>.
\<close>

fun clear_loop ::
  "'a SimpleVirus_scheme list \<Rightarrow> 'a SimpleVirus_scheme list \<Rightarrow> env \<Rightarrow>
   (error + 'a SimpleVirus_scheme list) \<times> env" where
  "clear_loop [] viruses_survived e = (Inr viruses_survived, e)"
| "clear_loop (virus # rest) viruses_survived e =
     (case doesClear virus e of (c, e1) \<Rightarrow>
        if c then (case list_remove virus viruses_survived of
                     Inl err \<Rightarrow> (Inl err, e1)
                   | Inr s \<Rightarrow> clear_loop rest s e1)
        else clear_loop rest viruses_survived e1)"

text \<open>Python 3 true division of two integers: a float, ZeroDivisionError on a zero divisor.\<close>

definition true_div :: "int \<Rightarrow> int \<Rightarrow> error + real" where
  "true_div a b = (if b = 0 then Inl ZeroDivisionError else Inr (real_of_int a / real_of_int b))"

text \<open>
  The reproduction loop: \<open>reproduce\<close> is the particle's reproduction decision; a
  NoChildException is caught and skipped, any other exception leaves the loop.
\<close>

fun reproduce_loop ::
  "('v \<Rightarrow> env \<Rightarrow> (error + 'v) \<times> env) \<Rightarrow> 'v list \<Rightarrow> 'v list \<Rightarrow> env \<Rightarrow>
   (error + 'v list) \<times> env" where
  "reproduce_loop reproduce [] viruses_produced e = (Inr viruses_produced, e)"
| "reproduce_loop reproduce (virus # rest) viruses_produced e =
     (case reproduce virus e of
        (Inr child, e1) \<Rightarrow> reproduce_loop reproduce rest (viruses_produced @ [child]) e1
      | (Inl NoChildException, e1) \<Rightarrow> reproduce_loop reproduce rest viruses_produced e1
      | (Inl err, e1) \<Rightarrow> (Inl err, e1))"

text \<open>
  \<^verbatim>\<open>update\<close> returns the host as the call leaves it also when an exception escapes:
  \<^verbatim>\<open>self.viruses\<close> is assigned before the density is computed.
\<close>

definition Patient_update ::
  "SimpleVirus Patient \<Rightarrow> env \<Rightarrow> (error + int) \<times> SimpleVirus Patient \<times> env" where
  "Patient_update h e =
     (case clear_loop (getViruses h) (getViruses h) e of
        (Inl err, e1) \<Rightarrow> (Inl err, h, e1)
      | (Inr viruses_survived, e1) \<Rightarrow>
          let h1 = h\<lparr>viruses := viruses_survived\<rparr> in
          (case true_div (getTotalPop h1) (getMaxPop h1) of
             Inl err \<Rightarrow> (Inl err, h1, e1)
           | Inr popDensity \<Rightarrow>
               (case reproduce_loop (\<lambda>virus. SimpleVirus_reproduce virus popDensity)
                       (getViruses h1) [] e1 of
                  (Inl err, e2) \<Rightarrow> (Inl err, h1, e2)
                | (Inr viruses_produced, e2) \<Rightarrow>
                    let h2 = h1\<lparr>viruses := viruses h1 @ viruses_produced\<rparr>
                    in (Inr (getTotalPop h2), h2, e2))))"

section \<open>class ResistantVirus\<close>

text \<open>
  The dictionary \<open>resistances\<close> keeps its insertion order, which fixes the order of the
  mutation draws: it is an association list.
\<close>

record ResistantVirus = SimpleVirus +
  resistances :: "(string \<times> bool) list"
  mutProb :: real

definition ResistantVirus_init ::
  "real \<Rightarrow> real \<Rightarrow> (string \<times> bool) list \<Rightarrow> real \<Rightarrow> env \<Rightarrow> ResistantVirus \<times> env" where
  "ResistantVirus_init mbp cp rs mp e =
     (\<lparr>oid = next_oid e, maxBirthProb = mbp, clearProb = cp, resistances = rs, mutProb = mp\<rparr>,
      e\<lparr>next_oid := next_oid e + 1\<rparr>)"

definition getResistances :: "ResistantVirus \<Rightarrow> (string \<times> bool) list" where
  "getResistances v = resistances v"

definition getMutProb :: "ResistantVirus \<Rightarrow> real" where
  "getMutProb v = mutProb v"

text \<open>\<^verbatim>\<open>dict.get\<close>: the stored value, or None for a key that is absent.\<close>

definition isResistantTo :: "ResistantVirus \<Rightarrow> string \<Rightarrow> bool option" where
  "isResistantTo v drug = map_of (resistances v) drug"

text \<open>Python's \<^verbatim>\<open>not x\<close> on a value that is True, False or None.\<close>

definition py_not :: "bool option \<Rightarrow> bool" where
  "py_not x = (case x of Some True \<Rightarrow> False | Some False \<Rightarrow> True | None \<Rightarrow> True)"

fun drug_gate :: "ResistantVirus \<Rightarrow> string list \<Rightarrow> bool \<Rightarrow> bool" where
  "drug_gate v [] drugsAreEffective = drugsAreEffective"
| "drug_gate v (drug # rest) drugsAreEffective =
     (if py_not (isResistantTo v drug) then drug_gate v rest True
      else drug_gate v rest drugsAreEffective)"

text \<open>
  The mutation loop over the keys of the copied dictionary; \<^verbatim>\<open>newResistances[drug]\<close>
  raises KeyError on a missing key.
\<close>

fun mutate_loop ::
  "string list \<Rightarrow> (string \<times> bool) list \<Rightarrow> real \<Rightarrow> env \<Rightarrow>
   (error + (string \<times> bool) list) \<times> env" where
  "mutate_loop [] newResistances mp e = (Inr newResistances, e)"
| "mutate_loop (drug # rest) newResistances mp e =
     (case random_random e of (r, e1) \<Rightarrow>
        if r \<le> mp
        then (case map_of newResistances drug of
                None \<Rightarrow> (Inl KeyError, e1)
              | Some b \<Rightarrow> mutate_loop rest (AList.update drug (\<not> b) newResistances) mp e1)
        else mutate_loop rest newResistances mp e1)"

definition ResistantVirus_reproduce ::
  "ResistantVirus \<Rightarrow> real \<Rightarrow> string list \<Rightarrow> env \<Rightarrow> (error + ResistantVirus) \<times> env" where
  "ResistantVirus_reproduce v popDensity activeDrugs e =
     (if drug_gate v activeDrugs False then (Inl NoChildException, e)
      else
        let repProb = getMaxBirthProb v * (1 - popDensity) in
        case random_random e of (r, e1) \<Rightarrow>
          if r \<le> repProb
          then (case mutate_loop (map fst (getResistances v)) (getResistances v)
                       (getMutProb v) e1 of
                  (Inl err, e2) \<Rightarrow> (Inl err, e2)
                | (Inr newResistances, e2) \<Rightarrow>
                    (case ResistantVirus_init (getMaxBirthProb v) (getClearProb v)
                            newResistances (getMutProb v) e2 of
                       (child, e3) \<Rightarrow> (Inr child, e3)))
          else (Inl NoChildException, e1))"

section \<open>class TreatedPatient\<close>

record 'v TreatedPatient = "'v Patient" +
  prescriptions :: "string list"

definition TreatedPatient_init ::
  "ResistantVirus list \<Rightarrow> int \<Rightarrow> ResistantVirus TreatedPatient" where
  "TreatedPatient_init vs mp = \<lparr>viruses = vs, maxPop = mp, prescriptions = []\<rparr>"

definition getPrescriptions :: "'v TreatedPatient \<Rightarrow> string list" where
  "getPrescriptions h = prescriptions h"

definition addPrescription :: "'v TreatedPatient \<Rightarrow> string \<Rightarrow> 'v TreatedPatient" where
  "addPrescription h newDrug =
     (if newDrug \<notin> set (getPrescriptions h)
      then h\<lparr>prescriptions := prescriptions h @ [newDrug]\<rparr> else h)"

fun resist_all :: "ResistantVirus \<Rightarrow> string list \<Rightarrow> bool \<Rightarrow> bool" where
  "resist_all virus [] virusIsResistant = virusIsResistant"
| "resist_all virus (drug # rest) virusIsResistant =
     (if py_not (isResistantTo virus drug) then resist_all virus rest False
      else resist_all virus rest virusIsResistant)"

fun resist_count :: "ResistantVirus list \<Rightarrow> string list \<Rightarrow> int \<Rightarrow> int" where
  "resist_count [] drugResist numResistantViruses = numResistantViruses"
| "resist_count (virus # rest) drugResist numResistantViruses =
     (if length drugResist > 0
      then (if resist_all virus drugResist True
            then resist_count rest drugResist (numResistantViruses + 1)
            else resist_count rest drugResist numResistantViruses)
      else resist_count rest drugResist numResistantViruses)"

definition getResistPop :: "ResistantVirus TreatedPatient \<Rightarrow> string list \<Rightarrow> int" where
  "getResistPop h drugResist = resist_count (getViruses h) drugResist 0"

definition TreatedPatient_update ::
  "ResistantVirus TreatedPatient \<Rightarrow> env \<Rightarrow>
   (error + int) \<times> ResistantVirus TreatedPatient \<times> env" where
  "TreatedPatient_update h e =
     (case clear_loop (getViruses h) (getViruses h) e of
        (Inl err, e1) \<Rightarrow> (Inl err, h, e1)
      | (Inr viruses_survived, e1) \<Rightarrow>
          let h1 = h\<lparr>viruses := viruses_survived\<rparr> in
          (case true_div (getTotalPop h1) (getMaxPop h1) of
             Inl err \<Rightarrow> (Inl err, h1, e1)
           | Inr popDensity \<Rightarrow>
               (case reproduce_loop
                       (\<lambda>virus. ResistantVirus_reproduce virus popDensity (getPrescriptions h1))
                       (getViruses h1) [] e1 of
                  (Inl err, e2) \<Rightarrow> (Inl err, h1, e2)
                | (Inr viruses_produced, e2) \<Rightarrow>
                    let h2 = h1\<lparr>viruses := viruses h1 @ viruses_produced\<rparr>
                    in (Inr (getTotalPop h2), h2, e2))))"

section \<open>Successive time steps\<close>

text \<open>
  The drivers call \<^verbatim>\<open>update()\<close> once per time step and record what it returns;
  an exception ends the run.
\<close>

fun TreatedPatient_steps ::
  "nat \<Rightarrow> ResistantVirus TreatedPatient \<Rightarrow> env \<Rightarrow>
   (error + int list) \<times> ResistantVirus TreatedPatient \<times> env" where
  "TreatedPatient_steps 0 h e = (Inr [], h, e)"
| "TreatedPatient_steps (Suc n) h e =
     (case TreatedPatient_update h e of
        (Inl err, h1, e1) \<Rightarrow> (Inl err, h1, e1)
      | (Inr pop, h1, e1) \<Rightarrow>
          (case TreatedPatient_steps n h1 e1 of
             (Inl err, h2, e2) \<Rightarrow> (Inl err, h2, e2)
           | (Inr pops, h2, e2) \<Rightarrow> (Inr (pop # pops), h2, e2)))"

section \<open>The specification's wording, as functions of the draws\<close>

text \<open>
  Mutation as the specification words it: the trait of the key at position \<open>i\<close> is decided
  by the draw \<open>k + i\<close> alone; it is negated when that draw is at most \<open>mutProb\<close> and
  inherited otherwise.
\<close>

fun spec_mutated :: "(string \<times> bool) list \<Rightarrow> real \<Rightarrow> (nat \<Rightarrow> real) \<Rightarrow> nat \<Rightarrow> (string \<times> bool) list" where
  "spec_mutated [] mp d k = []"
| "spec_mutated ((drug, b) # rs) mp d k =
     (drug, if d k \<le> mp then \<not> b else b) # spec_mutated rs mp d (Suc k)"

text \<open>
  Clearance as the specification words it: the particle at position \<open>i\<close> of the pre-step
  population is decided by the draw \<open>k + i\<close> alone, and the survivors are the particles
  that do not clear, in their order.
\<close>

fun spec_survivors ::
  "'a SimpleVirus_scheme list \<Rightarrow> (nat \<Rightarrow> real) \<Rightarrow> nat \<Rightarrow> 'a SimpleVirus_scheme list" where
  "spec_survivors [] d k = []"
| "spec_survivors (v # vs) d k =
     (if d k \<le> clearProb v then spec_survivors vs d (Suc k)
      else v # spec_survivors vs d (Suc k))"

text \<open>
  The reproduction phase as the specification words it: every survivor, in turn, makes its
  reproduction decision once; the outcomes are kept in a list of their own, and the staged
  offspring are the particles of the outcomes that produced one.
\<close>

fun spec_attempts ::
  "('v \<Rightarrow> env \<Rightarrow> (error + 'v) \<times> env) \<Rightarrow> 'v list \<Rightarrow> env \<Rightarrow> (error + 'v) list \<times> env" where
  "spec_attempts reproduce [] e = ([], e)"
| "spec_attempts reproduce (v # vs) e =
     (case reproduce v e of (out, e1) \<Rightarrow>
        (case spec_attempts reproduce vs e1 of (outs, e2) \<Rightarrow> (out # outs, e2)))"

fun staged :: "(error + 'v) list \<Rightarrow> 'v list" where
  "staged [] = []"
| "staged (Inr child # outs) = child # staged outs"
| "staged (Inl err # outs) = staged outs"

section \<open>Resistance queries and the drug gate\<close>

lemmas getters = getMaxBirthProb_def getClearProb_def getViruses_def getMaxPop_def
  getTotalPop_def getResistances_def getMutProb_def getPrescriptions_def

lemma py_not_iff: "py_not x \<longleftrightarrow> x \<noteq> Some True"
  by (auto simp: py_not_def split: option.splits bool.splits)

lemma drug_gate_iff:
  "drug_gate v ds acc \<longleftrightarrow> acc \<or> (\<exists>d\<in>set ds. isResistantTo v d \<noteq> Some True)"
  by (induction ds arbitrary: acc) (auto simp: py_not_iff)

lemma resist_all_iff:
  "resist_all v ds acc \<longleftrightarrow> acc \<and> (\<forall>d\<in>set ds. isResistantTo v d = Some True)"
  by (induction ds arbitrary: acc) (auto simp: py_not_iff)

lemma resist_count_eq:
  "resist_count vs ds n =
     n + (if ds = [] then 0
          else int (length (filter (\<lambda>v. \<forall>d\<in>set ds. isResistantTo v d = Some True) vs)))"
  by (induction vs arbitrary: n) (auto simp: resist_all_iff)

section \<open>The mutation loop\<close>

lemma mutate_loop_ok:
  "set ks \<subseteq> fst ` set nr \<Longrightarrow>
   \<exists>nr'. mutate_loop ks nr mp e = (Inr nr', e\<lparr>cursor := cursor e + length ks\<rparr>)
         \<and> map fst nr' = map fst nr"
proof (induction ks arbitrary: nr e)
  case Nil
  then show ?case by simp
next
  case (Cons k ks)
  let ?e1 = "e\<lparr>cursor := cursor e + 1\<rparr>"
  from Cons.prems obtain b where b: "map_of nr k = Some b"
    by (cases "map_of nr k") (auto simp: map_of_eq_None_iff)
  have keys: "map fst (AList.update k (\<not> b) nr) = map fst nr"
    using Cons.prems by (simp add: update_keys)
  have sub1: "set ks \<subseteq> fst ` set nr" using Cons.prems by simp
  have sub2: "set ks \<subseteq> fst ` set (AList.update k (\<not> b) nr)"
    using sub1 keys by (metis set_map)
  from Cons.IH[OF sub1, of ?e1] Cons.IH[OF sub2, of ?e1] keys b
  show ?case by (auto simp: random_random_def)
qed


lemma update_middle:
  "k \<notin> fst ` set pre \<Longrightarrow> AList.update k v (pre @ (k, b) # rest) = pre @ (k, v) # rest"
  by (induction pre) auto

lemma map_of_middle:
  "k \<notin> fst ` set pre \<Longrightarrow> map_of (pre @ (k, b) # rest) k = Some b"
  by (induction pre) auto

lemma mutate_loop_distinct:
  "distinct (map fst (pre @ rs)) \<Longrightarrow>
   mutate_loop (map fst rs) (pre @ rs) mp e =
     (Inr (pre @ spec_mutated rs mp (draws e) (cursor e)), e\<lparr>cursor := cursor e + length rs\<rparr>)"
proof (induction rs arbitrary: pre e)
  case Nil
  then show ?case by simp
next
  case (Cons kb rs)
  obtain k b where kb: "kb = (k, b)" by (cases kb)
  let ?e1 = "e\<lparr>cursor := cursor e + 1\<rparr>"
  from Cons.prems kb have notin: "k \<notin> fst ` set pre" by auto
  have d1: "distinct (map fst ((pre @ [(k, b)]) @ rs))" using Cons.prems kb by simp
  have d2: "distinct (map fst ((pre @ [(k, \<not> b)]) @ rs))" using Cons.prems kb by simp
  have m: "map_of (pre @ (k, b) # rs) k = Some b" using notin by (rule map_of_middle)
  have u: "AList.update k (\<not> b) (pre @ (k, b) # rs) = pre @ (k, \<not> b) # rs"
    using notin by (rule update_middle)
  show ?case
    using Cons.IH[OF d1, of ?e1] Cons.IH[OF d2, of ?e1]
    by (simp add: kb random_random_def m u del: map_of_append)
qed

lemma ResistantVirus_reproduce_blocked:
  "\<exists>d\<in>set ads. isResistantTo v d \<noteq> Some True \<Longrightarrow>
   ResistantVirus_reproduce v pd ads e = (Inl NoChildException, e)"
  by (simp add: ResistantVirus_reproduce_def drug_gate_iff)

lemma ResistantVirus_reproduce_fail:
  "\<forall>d\<in>set ads. isResistantTo v d = Some True \<Longrightarrow>
   \<not> draws e (cursor e) \<le> maxBirthProb v * (1 - pd) \<Longrightarrow>
   ResistantVirus_reproduce v pd ads e = (Inl NoChildException, e\<lparr>cursor := cursor e + 1\<rparr>)"
  by (simp add: ResistantVirus_reproduce_def drug_gate_iff random_random_def getters)

lemma ResistantVirus_reproduce_child:
  assumes "\<forall>d\<in>set ads. isResistantTo v d = Some True"
    and "draws e (cursor e) \<le> maxBirthProb v * (1 - pd)"
  shows "\<exists>nr. ResistantVirus_reproduce v pd ads e =
      (Inr \<lparr>oid = next_oid e, maxBirthProb = maxBirthProb v, clearProb = clearProb v,
            resistances = nr, mutProb = mutProb v\<rparr>,
       e\<lparr>cursor := cursor e + 1 + length (resistances v), next_oid := next_oid e + 1\<rparr>)
     \<and> map fst nr = map fst (resistances v)
     \<and> (distinct (map fst (resistances v)) \<longrightarrow>
          nr = spec_mutated (resistances v) (mutProb v) (draws e) (cursor e + 1))"
proof -
  let ?e1 = "e\<lparr>cursor := cursor e + 1\<rparr>"
  have sub: "set (map fst (resistances v)) \<subseteq> fst ` set (resistances v)" by simp
  from mutate_loop_ok[OF sub, of "mutProb v" ?e1] obtain nr where
    nr: "mutate_loop (map fst (resistances v)) (resistances v) (mutProb v) ?e1
           = (Inr nr, ?e1\<lparr>cursor := cursor ?e1 + length (map fst (resistances v))\<rparr>)"
    and keys: "map fst nr = map fst (resistances v)" by blast
  have flips: "nr = spec_mutated (resistances v) (mutProb v) (draws e) (cursor e + 1)"
    if "distinct (map fst (resistances v))"
    using mutate_loop_distinct[of "[]" "resistances v" "mutProb v" ?e1] that nr by simp
  show ?thesis
    using assms nr keys flips
    by (simp add: ResistantVirus_reproduce_def drug_gate_iff random_random_def getters
        ResistantVirus_init_def)
qed


section \<open>Claims on the drug gate, the resistant count and prescriptions\<close>

text \<open>
  C6. \<open>ResistantVirus.reproduce\<close> raises NoChildException whenever some active drug is one
  the particle is not resistant to; the result is the same for every sequence of draws and no
  draw is consumed. An empty list of active drugs passes the gate: the particle then
  reproduces exactly when the next draw is at most \<open>maxBirthProb * (1 - popDensity)\<close>.
\<close>

theorem ResistantVirus_reproduce_gate:
  "((\<exists>d\<in>set activeDrugs. isResistantTo v d \<noteq> Some True) \<longrightarrow>
      ResistantVirus_reproduce v popDensity activeDrugs e = (Inl NoChildException, e))
   \<and> ((\<exists>child e'. ResistantVirus_reproduce v popDensity [] e = (Inr child, e'))
        \<longleftrightarrow> draws e (cursor e) \<le> maxBirthProb v * (1 - popDensity))
   \<and> (\<not> draws e (cursor e) \<le> maxBirthProb v * (1 - popDensity) \<longrightarrow>
        ResistantVirus_reproduce v popDensity [] e =
          (Inl NoChildException, e\<lparr>cursor := cursor e + 1\<rparr>))"
proof (intro conjI impI)
  assume "\<exists>d\<in>set activeDrugs. isResistantTo v d \<noteq> Some True"
  then show "ResistantVirus_reproduce v popDensity activeDrugs e = (Inl NoChildException, e)"
    by (rule ResistantVirus_reproduce_blocked)
next
  have gate: "\<forall>d\<in>set []. isResistantTo v d = Some True" by simp
  show "(\<exists>child e'. ResistantVirus_reproduce v popDensity [] e = (Inr child, e'))
        \<longleftrightarrow> draws e (cursor e) \<le> maxBirthProb v * (1 - popDensity)"
  proof (cases "draws e (cursor e) \<le> maxBirthProb v * (1 - popDensity)")
    case True
    from ResistantVirus_reproduce_child[OF gate True] show ?thesis using True by blast
  next
    case False
    from ResistantVirus_reproduce_fail[OF gate False] show ?thesis using False by simp
  qed
next
  have gate: "\<forall>d\<in>set []. isResistantTo v d = Some True" by simp
  assume "\<not> draws e (cursor e) \<le> maxBirthProb v * (1 - popDensity)"
  from ResistantVirus_reproduce_fail[OF gate this]
  show "ResistantVirus_reproduce v popDensity [] e =
          (Inl NoChildException, e\<lparr>cursor := cursor e + 1\<rparr>)" .
qed

theorem ResistantVirus_reproduce_gate_witness:
  "(\<exists>d\<in>set [''D'']. isResistantTo
        \<lparr>oid = 0, maxBirthProb = 1, clearProb = 0, resistances = [(''D'', False)], mutProb = 0\<rparr> d
        \<noteq> Some True)
   \<and> ResistantVirus_reproduce
        \<lparr>oid = 0, maxBirthProb = 1, clearProb = 0, resistances = [(''D'', False)], mutProb = 0\<rparr>
        0 [''D''] \<lparr>draws = (\<lambda>n. 0), cursor = 0, next_oid = 1\<rparr>
       = (Inl NoChildException, \<lparr>draws = (\<lambda>n. 0), cursor = 0, next_oid = 1\<rparr>)
   \<and> \<not> draws \<lparr>draws = (\<lambda>n. 1/2), cursor = 0, next_oid = 1\<rparr>
           (cursor \<lparr>draws = (\<lambda>n. 1/2), cursor = 0, next_oid = 1\<rparr>)
         \<le> maxBirthProb \<lparr>oid = 0, maxBirthProb = 1, clearProb = 0,
                            resistances = [(''D'', False)], mutProb = 0\<rparr> * (1 - 3/4)
   \<and> ResistantVirus_reproduce
        \<lparr>oid = 0, maxBirthProb = 1, clearProb = 0, resistances = [(''D'', False)], mutProb = 0\<rparr>
        (3/4) [] \<lparr>draws = (\<lambda>n. 1/2), cursor = 0, next_oid = 1\<rparr>
       = (Inl NoChildException, \<lparr>draws = (\<lambda>n. 1/2), cursor = 1, next_oid = 1\<rparr>)"
  using ResistantVirus_reproduce_gate
    [of "[''D'']"
        "\<lparr>oid = 0, maxBirthProb = 1, clearProb = 0, resistances = [(''D'', False)], mutProb = 0\<rparr>"
        0 "\<lparr>draws = (\<lambda>n. 0), cursor = 0, next_oid = 1\<rparr>"]
    ResistantVirus_reproduce_gate
    [of "[]"
        "\<lparr>oid = 0, maxBirthProb = 1, clearProb = 0, resistances = [(''D'', False)], mutProb = 0\<rparr>"
        "3/4" "\<lparr>draws = (\<lambda>n. 1/2), cursor = 0, next_oid = 1\<rparr>"]
  by (simp add: isResistantTo_def)

text \<open>
  C7. \<open>getResistPop\<close> returns the number of particles of the current population that are
  resistant to every drug of the list, and 0 when the list is empty, whatever the population.
\<close>

theorem getResistPop_counts:
  "getResistPop h drugList =
     (if drugList = [] then 0
      else int (length (filter (\<lambda>v. \<forall>d\<in>set drugList. isResistantTo v d = Some True)
                          (getViruses h))))"
  by (simp add: getResistPop_def resist_count_eq)

theorem getResistPop_counts_witness:
  "getResistPop
     (TreatedPatient_init
        [\<lparr>oid = 0, maxBirthProb = 1, clearProb = 0, resistances = [(''D'', True)], mutProb = 0\<rparr>,
         \<lparr>oid = 1, maxBirthProb = 1, clearProb = 0, resistances = [(''D'', False)], mutProb = 0\<rparr>]
        10) [''D''] = 1
   \<and> getResistPop
     (TreatedPatient_init
        [\<lparr>oid = 0, maxBirthProb = 1, clearProb = 0, resistances = [(''D'', True)], mutProb = 0\<rparr>,
         \<lparr>oid = 1, maxBirthProb = 1, clearProb = 0, resistances = [(''D'', False)], mutProb = 0\<rparr>]
        10) [] = 0"
  using getResistPop_counts
    [of "TreatedPatient_init
        [\<lparr>oid = 0, maxBirthProb = 1, clearProb = 0, resistances = [(''D'', True)], mutProb = 0\<rparr>,
         \<lparr>oid = 1, maxBirthProb = 1, clearProb = 0, resistances = [(''D'', False)], mutProb = 0\<rparr>]
        10" "[''D'']"]
    getResistPop_counts
    [of "TreatedPatient_init
        [\<lparr>oid = 0, maxBirthProb = 1, clearProb = 0, resistances = [(''D'', True)], mutProb = 0\<rparr>,
         \<lparr>oid = 1, maxBirthProb = 1, clearProb = 0, resistances = [(''D'', False)], mutProb = 0\<rparr>]
        10" "[]"]
  by (simp add: TreatedPatient_init_def isResistantTo_def getters)


section \<open>Prescriptions\<close>

lemma TreatedPatient_update_prescriptions:
  "prescriptions (fst (snd (TreatedPatient_update h e))) = prescriptions h"
  by (simp add: TreatedPatient_update_def Let_def split: prod.splits sum.splits)

lemma TreatedPatient_steps_prescriptions:
  "prescriptions (fst (snd (TreatedPatient_steps n h e))) = prescriptions h"
proof (induction n arbitrary: h e)
  case 0
  then show ?case by simp
next
  case (Suc n)
  obtain r h1 e1 where u: "TreatedPatient_update h e = (r, h1, e1)"
    by (cases "TreatedPatient_update h e") auto
  have p1: "prescriptions h1 = prescriptions h"
    using TreatedPatient_update_prescriptions[of h e] u by simp
  show ?case
  proof (cases r)
    case (Inl err)
    then show ?thesis using u p1 by simp
  next
    case (Inr pop)
    obtain r2 h2 e2 where s: "TreatedPatient_steps n h1 e1 = (r2, h2, e2)"
      by (cases "TreatedPatient_steps n h1 e1") auto
    have "prescriptions h2 = prescriptions h1" using Suc.IH[of h1 e1] s by simp
    then show ?thesis using u p1 s Inr by (cases r2) simp_all
  qed
qed

text \<open>
  C8. \<open>addPrescription\<close> appends the drug only when it is absent and changes nothing
  otherwise, so a second call with the same name leaves the prescriptions as the first call
  left them; every drug already prescribed stays prescribed after \<open>addPrescription\<close> of
  any name, and \<open>update\<close>, once or any number of times, hands the prescriptions on
  unchanged (\<open>getResistPop\<close> and the getters return no new host).
\<close>

theorem addPrescription_idempotent_monotone:
  "(d \<notin> set (getPrescriptions h) \<longrightarrow>
      getPrescriptions (addPrescription h d) = getPrescriptions h @ [d])
   \<and> (d \<in> set (getPrescriptions h) \<longrightarrow> addPrescription h d = h)
   \<and> addPrescription (addPrescription h d) d = addPrescription h d
   \<and> length (getPrescriptions (addPrescription (addPrescription h d) d))
       = length (getPrescriptions (addPrescription h d))
   \<and> d \<in> set (getPrescriptions (addPrescription h d))
   \<and> set (getPrescriptions h) \<subseteq> set (getPrescriptions (addPrescription h d))
   \<and> getPrescriptions (fst (snd (TreatedPatient_update g e))) = getPrescriptions g
   \<and> getPrescriptions (fst (snd (TreatedPatient_steps n g e))) = getPrescriptions g"
  by (auto simp: addPrescription_def getPrescriptions_def TreatedPatient_update_prescriptions
      TreatedPatient_steps_prescriptions)

theorem addPrescription_idempotent_monotone_witness:
  "''D'' \<notin> set (getPrescriptions (TreatedPatient_init [] 10))
   \<and> getPrescriptions (addPrescription (TreatedPatient_init [] 10) ''D'') = [''D'']
   \<and> ''D'' \<in> set (getPrescriptions (addPrescription (TreatedPatient_init [] 10) ''D''))
   \<and> addPrescription (addPrescription (TreatedPatient_init [] 10) ''D'') ''D''
       = addPrescription (TreatedPatient_init [] 10) ''D''
   \<and> getPrescriptions (fst (snd (TreatedPatient_steps 3
        (addPrescription (TreatedPatient_init [] 10) ''D'')
        \<lparr>draws = (\<lambda>n. 0), cursor = 0, next_oid = 0\<rparr>))) = [''D'']"
proof -
  have a: "''D'' \<notin> set (getPrescriptions (TreatedPatient_init [] 10))"
    by (simp add: TreatedPatient_init_def getPrescriptions_def)
  have b: "getPrescriptions (addPrescription (TreatedPatient_init [] 10) ''D'') = [''D'']"
    using addPrescription_idempotent_monotone[of "''D''" "TreatedPatient_init [] 10"] a
    by (simp add: TreatedPatient_init_def getPrescriptions_def)
  have c: "''D'' \<in> set (getPrescriptions (addPrescription (TreatedPatient_init [] 10) ''D''))"
    using b by simp
  show ?thesis
    using a b c
      addPrescription_idempotent_monotone[of "''D''" "addPrescription (TreatedPatient_init [] 10) ''D''"
        "addPrescription (TreatedPatient_init [] 10) ''D''"
        "\<lparr>draws = (\<lambda>n. 0), cursor = 0, next_oid = 0\<rparr>" 3]
    by simp
qed


section \<open>Inheritance of the parent's parameters\<close>

lemma SimpleVirus_reproduce_cases:
  "SimpleVirus_reproduce v pd e =
     (if draws e (cursor e) \<le> maxBirthProb v * (1 - pd)
      then (Inr \<lparr>oid = next_oid e, maxBirthProb = maxBirthProb v, clearProb = clearProb v\<rparr>,
            e\<lparr>cursor := cursor e + 1, next_oid := next_oid e + 1\<rparr>)
      else (Inl NoChildException, e\<lparr>cursor := cursor e + 1\<rparr>))"
  by (simp add: SimpleVirus_reproduce_def random_random_def SimpleVirus_init_def getters)

lemma ResistantVirus_reproduce_Inr:
  assumes "ResistantVirus_reproduce v pd ads e = (Inr c, e')"
  shows "(\<forall>d\<in>set ads. isResistantTo v d = Some True)
         \<and> draws e (cursor e) \<le> maxBirthProb v * (1 - pd)"
proof -
  have g: "\<forall>d\<in>set ads. isResistantTo v d = Some True"
  proof (rule ccontr)
    assume "\<not> ?thesis"
    then have "\<exists>d\<in>set ads. isResistantTo v d \<noteq> Some True" by blast
    from ResistantVirus_reproduce_blocked[OF this] assms show False by simp
  qed
  have "draws e (cursor e) \<le> maxBirthProb v * (1 - pd)"
  proof (rule ccontr)
    assume "\<not> ?thesis"
    from ResistantVirus_reproduce_fail[OF g this] assms show False by simp
  qed
  with g show ?thesis by simp
qed

text \<open>
  C9. An offspring of \<open>reproduce\<close>, basic or resistant, has the \<open>maxBirthProb\<close> and
  \<open>clearProb\<close> of its parent, and the resistant one its \<open>mutProb\<close> too. The resistant
  offspring has the parent's keys in the parent's order; with the keys of a dictionary
  (pairwise distinct), the value of the key at position \<open>i\<close> is the parent's, negated
  exactly when the draw \<open>i\<close> places after the reproduction draw is at most \<open>mutProb\<close>.
\<close>

theorem offspring_inherits:
  "(SimpleVirus_reproduce p popDensity e = (Inr c, e') \<longrightarrow>
      maxBirthProb c = maxBirthProb p \<and> clearProb c = clearProb p)
   \<and> (ResistantVirus_reproduce q popDensity activeDrugs e = (Inr d, e'') \<longrightarrow>
      maxBirthProb d = maxBirthProb q \<and> clearProb d = clearProb q \<and> mutProb d = mutProb q
      \<and> map fst (resistances d) = map fst (resistances q)
      \<and> (distinct (map fst (resistances q)) \<longrightarrow>
           resistances d = spec_mutated (resistances q) (mutProb q) (draws e) (cursor e + 1)))"
proof (intro conjI impI)
  assume "SimpleVirus_reproduce p popDensity e = (Inr c, e')"
  then have "c = \<lparr>oid = next_oid e, maxBirthProb = maxBirthProb p, clearProb = clearProb p\<rparr>"
    by (simp add: SimpleVirus_reproduce_cases split: if_splits)
  then show "maxBirthProb c = maxBirthProb p" "clearProb c = clearProb p" by simp_all
next
  assume r: "ResistantVirus_reproduce q popDensity activeDrugs e = (Inr d, e'')"
  from ResistantVirus_reproduce_Inr[OF r]
  have g: "\<forall>d\<in>set activeDrugs. isResistantTo q d = Some True"
    and b: "draws e (cursor e) \<le> maxBirthProb q * (1 - popDensity)" by simp_all
  from ResistantVirus_reproduce_child[OF g b] r obtain nr where
    d: "d = \<lparr>oid = next_oid e, maxBirthProb = maxBirthProb q, clearProb = clearProb q,
            resistances = nr, mutProb = mutProb q\<rparr>"
    and keys: "map fst nr = map fst (resistances q)"
    and flips: "distinct (map fst (resistances q)) \<longrightarrow>
          nr = spec_mutated (resistances q) (mutProb q) (draws e) (cursor e + 1)"
    by auto
  show "maxBirthProb d = maxBirthProb q" "clearProb d = clearProb q" "mutProb d = mutProb q"
    using d by simp_all
  show "map fst (resistances d) = map fst (resistances q)" using d keys by simp
  assume "distinct (map fst (resistances q))"
  then show "resistances d = spec_mutated (resistances q) (mutProb q) (draws e) (cursor e + 1)"
    using d flips by simp
qed

theorem offspring_inherits_witness:
  "SimpleVirus_reproduce \<lparr>oid = 0, maxBirthProb = 1/2, clearProb = 1/4\<rparr> 0
       \<lparr>draws = (\<lambda>n. if n = 2 then 1/2 else 1/4), cursor = 0, next_oid = 1\<rparr>
     = (Inr \<lparr>oid = 1, maxBirthProb = 1/2, clearProb = 1/4\<rparr>,
        \<lparr>draws = (\<lambda>n. if n = 2 then 1/2 else 1/4), cursor = 1, next_oid = 2\<rparr>)
   \<and> maxBirthProb \<lparr>oid = 1, maxBirthProb = 1/2, clearProb = 1/4\<rparr>
       = maxBirthProb \<lparr>oid = 0, maxBirthProb = 1/2, clearProb = 1/4\<rparr>
   \<and> ResistantVirus_reproduce
       \<lparr>oid = 0, maxBirthProb = 1/2, clearProb = 1/4,
        resistances = [(''A'', True), (''B'', False)], mutProb = 1/3\<rparr> 0 [''A'']
       \<lparr>draws = (\<lambda>n. if n = 2 then 1/2 else 1/4), cursor = 0, next_oid = 1\<rparr>
     = (Inr \<lparr>oid = 1, maxBirthProb = 1/2, clearProb = 1/4,
             resistances = [(''A'', False), (''B'', False)], mutProb = 1/3\<rparr>,
        \<lparr>draws = (\<lambda>n. if n = 2 then 1/2 else 1/4), cursor = 3, next_oid = 2\<rparr>)
   \<and> distinct (map fst [(''A'', True), (''B'', False)])
   \<and> [(''A'', False), (''B'', False)]
       = spec_mutated [(''A'', True), (''B'', False)] (1/3)
           (\<lambda>n. if n = 2 then 1/2 else 1/4) 1"
proof -
  let ?p = "\<lparr>oid = 0, maxBirthProb = 1/2, clearProb = 1/4\<rparr> :: SimpleVirus"
  let ?c = "\<lparr>oid = 1, maxBirthProb = 1/2, clearProb = 1/4\<rparr> :: SimpleVirus"
  let ?q = "\<lparr>oid = 0, maxBirthProb = 1/2, clearProb = 1/4,
        resistances = [(''A'', True), (''B'', False)], mutProb = 1/3\<rparr>"
  let ?f = "\<lparr>draws = (\<lambda>n. if n = 2 then 1/2 else 1/4 :: real), cursor = 0, next_oid = 1\<rparr>"
  let ?f1 = "\<lparr>draws = (\<lambda>n. if n = 2 then 1/2 else 1/4 :: real), cursor = 1, next_oid = 2\<rparr>"
  let ?f3 = "\<lparr>draws = (\<lambda>n. if n = 2 then 1/2 else 1/4 :: real), cursor = 3, next_oid = 2\<rparr>"
  let ?d = "\<lparr>oid = 1, maxBirthProb = 1/2, clearProb = 1/4,
             resistances = [(''A'', False), (''B'', False)], mutProb = 1/3\<rparr>"
  have s: "SimpleVirus_reproduce ?p 0 ?f = (Inr ?c, ?f1)"
    by (simp add: SimpleVirus_reproduce_def random_random_def SimpleVirus_init_def getters)
  have r: "ResistantVirus_reproduce ?q 0 [''A''] ?f = (Inr ?d, ?f3)"
    by (simp add: ResistantVirus_reproduce_def random_random_def ResistantVirus_init_def getters
        isResistantTo_def py_not_def)
  have k: "distinct (map fst (resistances ?q))" by simp
  from offspring_inherits[of ?p 0 ?f ?c ?f1 ?q "[''A'']" ?d ?f3] s r k
  show ?thesis by simp
qed

text \<open>
  C10. A drug name that is no key of the particle's \<open>resistances\<close> is answered with the
  absence value, not with True or False. Such a drug among the active drugs blocks
  \<open>reproduce\<close> with the very result a key stored as False gives, and \<open>getResistPop\<close>
  counts no particle that lacks a listed key: dropping those particles from the population
  leaves the count as it is.
\<close>

theorem unknown_drug_not_resistant:
  "(drug \<notin> fst ` set (resistances v) \<longrightarrow>
      isResistantTo v drug = None
      \<and> (drug \<in> set activeDrugs \<longrightarrow>
           ResistantVirus_reproduce v popDensity activeDrugs e = (Inl NoChildException, e)
           \<and> ResistantVirus_reproduce v popDensity activeDrugs e
               = ResistantVirus_reproduce (v\<lparr>resistances := resistances v @ [(drug, False)]\<rparr>)
                   popDensity activeDrugs e))
   \<and> getResistPop h drugList
       = getResistPop
           (h\<lparr>viruses := filter (\<lambda>v. \<forall>d\<in>set drugList. d \<in> fst ` set (resistances v))
                            (viruses h)\<rparr>) drugList"
proof (intro conjI impI)
  assume a: "drug \<notin> fst ` set (resistances v)"
  then show n: "isResistantTo v drug = None"
    by (simp add: isResistantTo_def map_of_eq_None_iff)
  assume m: "drug \<in> set activeDrugs"
  have "\<exists>d\<in>set activeDrugs. isResistantTo v d \<noteq> Some True" using n m by force
  from ResistantVirus_reproduce_blocked[OF this]
  show b: "ResistantVirus_reproduce v popDensity activeDrugs e = (Inl NoChildException, e)" .
  have "isResistantTo (v\<lparr>resistances := resistances v @ [(drug, False)]\<rparr>) drug = Some False"
    using n by (simp add: isResistantTo_def map_add_def)
  then have "\<exists>d\<in>set activeDrugs.
      isResistantTo (v\<lparr>resistances := resistances v @ [(drug, False)]\<rparr>) d \<noteq> Some True"
    using m by force
  from ResistantVirus_reproduce_blocked[OF this] b
  show "ResistantVirus_reproduce v popDensity activeDrugs e
               = ResistantVirus_reproduce (v\<lparr>resistances := resistances v @ [(drug, False)]\<rparr>)
                   popDensity activeDrugs e" by simp
next
  have known: "d \<in> fst ` set (resistances v)" if "isResistantTo v d = Some True" for v d
    using that by (auto simp: isResistantTo_def dest!: map_of_SomeD intro: rev_image_eqI)
  have "filter (\<lambda>v. \<forall>d\<in>set drugList. isResistantTo v d = Some True)
            (filter (\<lambda>v. \<forall>d\<in>set drugList. d \<in> fst ` set (resistances v)) (viruses h))
        = filter (\<lambda>v. \<forall>d\<in>set drugList. isResistantTo v d = Some True) (viruses h)"
    unfolding filter_filter by (rule filter_cong[OF refl]) (use known in blast)
  then show "getResistPop h drugList
       = getResistPop
           (h\<lparr>viruses := filter (\<lambda>v. \<forall>d\<in>set drugList. d \<in> fst ` set (resistances v))
                            (viruses h)\<rparr>) drugList"
    by (simp add: getResistPop_def resist_count_eq getters)
qed

theorem unknown_drug_not_resistant_witness:
  "''E'' \<notin> fst ` set (resistances
        \<lparr>oid = 0, maxBirthProb = 1, clearProb = 0, resistances = [(''D'', True)], mutProb = 0\<rparr>)
   \<and> isResistantTo
        \<lparr>oid = 0, maxBirthProb = 1, clearProb = 0, resistances = [(''D'', True)], mutProb = 0\<rparr>
        ''E'' = None
   \<and> ''E'' \<in> set [''D'', ''E'']
   \<and> ResistantVirus_reproduce
        \<lparr>oid = 0, maxBirthProb = 1, clearProb = 0, resistances = [(''D'', True)], mutProb = 0\<rparr>
        0 [''D'', ''E''] \<lparr>draws = (\<lambda>n. 0), cursor = 0, next_oid = 1\<rparr>
       = (Inl NoChildException, \<lparr>draws = (\<lambda>n. 0), cursor = 0, next_oid = 1\<rparr>)
   \<and> getResistPop (TreatedPatient_init
        [\<lparr>oid = 0, maxBirthProb = 1, clearProb = 0, resistances = [(''D'', True)], mutProb = 0\<rparr>]
        10) [''D'', ''E''] = 0"
proof -
  let ?v = "\<lparr>oid = 0, maxBirthProb = 1, clearProb = 0, resistances = [(''D'', True)], mutProb = 0\<rparr>"
  let ?e = "\<lparr>draws = (\<lambda>n. 0 :: real), cursor = 0, next_oid = 1\<rparr>"
  have a: "''E'' \<notin> fst ` set (resistances ?v)" by simp
  have m: "''E'' \<in> set [''D'', ''E'']" by simp
  have z: "getResistPop (\<lparr>viruses = [], maxPop = 10, prescriptions = []\<rparr>) [''D'', ''E''] = 0"
    by (simp add: getResistPop_def getters)
  from unknown_drug_not_resistant[of "''E''" ?v "[''D'', ''E'']" 0 ?e
      "TreatedPatient_init [?v] 10" "[''D'', ''E'']"] a m z
  show ?thesis by (simp add: TreatedPatient_init_def)
qed

section \<open>The clearance loop\<close>

lemma doesClear_eq:
  "doesClear v e = (draws e (cursor e) \<le> clearProb v, e\<lparr>cursor := cursor e + 1\<rparr>)"
  by (simp add: doesClear_def random_random_def getters)

lemma clear_loop_mset:
  "mset rest \<subseteq># mset sv \<Longrightarrow>
   \<exists>s. clear_loop rest sv e = (Inr s, e\<lparr>cursor := cursor e + length rest\<rparr>)
       \<and> mset s + mset rest = mset sv + mset (spec_survivors rest (draws e) (cursor e))"
proof (induction rest arbitrary: sv e)
  case Nil
  then show ?case by simp
next
  case (Cons v rest)
  let ?e1 = "e\<lparr>cursor := cursor e + 1\<rparr>"
  have vin: "v \<in># mset sv" using Cons.prems by (simp add: insert_subset_eq_iff)
  have sub: "mset rest \<subseteq># mset sv - {#v#}" using Cons.prems by (simp add: insert_subset_eq_iff)
  show ?case
  proof (cases "draws e (cursor e) \<le> clearProb v")
    case True
    have "mset rest \<subseteq># mset (remove1 v sv)" using sub by simp
    from Cons.IH[OF this, of ?e1] obtain s where
      s: "clear_loop rest (remove1 v sv) ?e1 = (Inr s, ?e1\<lparr>cursor := cursor ?e1 + length rest\<rparr>)"
      and m: "mset s + mset rest
                = mset (remove1 v sv) + mset (spec_survivors rest (draws ?e1) (cursor ?e1))"
      by blast
    have "mset s + mset (v # rest) = mset sv + mset (spec_survivors (v # rest) (draws e) (cursor e))"
      using m vin True by simp
    moreover have "clear_loop (v # rest) sv e = (Inr s, e\<lparr>cursor := cursor e + length (v # rest)\<rparr>)"
      using s vin True by (simp add: doesClear_eq list_remove_def)
    ultimately show ?thesis by blast
  next
    case False
    have "mset rest \<subseteq># mset sv"
      using sub by (meson diff_subset_eq_self subset_mset.order_trans)
    from Cons.IH[OF this, of ?e1] obtain s where
      s: "clear_loop rest sv ?e1 = (Inr s, ?e1\<lparr>cursor := cursor ?e1 + length rest\<rparr>)"
      and m: "mset s + mset rest = mset sv + mset (spec_survivors rest (draws ?e1) (cursor ?e1))"
      by blast
    have "mset s + mset (v # rest) = mset sv + mset (spec_survivors (v # rest) (draws e) (cursor e))"
      using m False by simp
    moreover have "clear_loop (v # rest) sv e = (Inr s, e\<lparr>cursor := cursor e + length (v # rest)\<rparr>)"
      using s False by (simp add: doesClear_eq)
    ultimately show ?thesis by blast
  qed
qed

lemma clear_loop_distinct:
  "distinct (pre @ rest) \<Longrightarrow>
   clear_loop rest (pre @ rest) e =
     (Inr (pre @ spec_survivors rest (draws e) (cursor e)), e\<lparr>cursor := cursor e + length rest\<rparr>)"
proof (induction rest arbitrary: pre e)
  case Nil
  then show ?case by simp
next
  case (Cons v rest)
  let ?e1 = "e\<lparr>cursor := cursor e + 1\<rparr>"
  have notin: "v \<notin> set pre" using Cons.prems by auto
  have d0: "distinct (pre @ rest)" using Cons.prems by simp
  have d1: "distinct ((pre @ [v]) @ rest)" using Cons.prems by simp
  have rm: "remove1 v (pre @ v # rest) = pre @ rest" using notin by (simp add: remove1_append)
  show ?case
    using Cons.IH[OF d0, of ?e1] Cons.IH[OF d1, of ?e1] rm
    by (simp add: doesClear_eq list_remove_def)
qed

lemma spec_survivors_subset: "set (spec_survivors vs d k) \<subseteq> set vs"
  by (induction vs arbitrary: k) auto

lemma spec_survivors_nil:
  "(\<And>n. d n \<le> 1) \<Longrightarrow> \<forall>v\<in>set vs. clearProb v = 1 \<Longrightarrow> spec_survivors vs d k = []"
  by (induction vs arbitrary: k) auto

text \<open>The clearance phase of \<open>update\<close>, for any population.\<close>

lemma clear_phase:
  "\<exists>s. clear_loop vs vs e = (Inr s, e\<lparr>cursor := cursor e + length vs\<rparr>)
       \<and> mset s = mset (spec_survivors vs (draws e) (cursor e))
       \<and> (distinct vs \<longrightarrow> s = spec_survivors vs (draws e) (cursor e))"
proof -
  from clear_loop_mset[of vs vs e] obtain s where
    s: "clear_loop vs vs e = (Inr s, e\<lparr>cursor := cursor e + length vs\<rparr>)"
    and m: "mset s + mset vs = mset vs + mset (spec_survivors vs (draws e) (cursor e))"
    by auto
  have "mset s = mset (spec_survivors vs (draws e) (cursor e))" using m by simp
  moreover have "s = spec_survivors vs (draws e) (cursor e)" if "distinct vs"
    using clear_loop_distinct[of "[]" vs e] that s by simp
  ultimately show ?thesis using s by blast
qed

section \<open>The reproduction loop\<close>

lemma reproduce_loop_attempts:
  "\<forall>out\<in>set (fst (spec_attempts f vs e)). \<forall>err. out = Inl err \<longrightarrow> err = NoChildException \<Longrightarrow>
   reproduce_loop f vs acc e =
     (Inr (acc @ staged (fst (spec_attempts f vs e))), snd (spec_attempts f vs e))"
proof (induction vs arbitrary: acc e)
  case Nil
  then show ?case by simp
next
  case (Cons v vs)
  obtain out e1 where o: "f v e = (out, e1)" by (cases "f v e")
  obtain outs e2 where os: "spec_attempts f vs e1 = (outs, e2)" by (cases "spec_attempts f vs e1")
  have all: "\<forall>out\<in>set (fst (spec_attempts f vs e1)). \<forall>err. out = Inl err \<longrightarrow> err = NoChildException"
    using Cons.prems o os by simp
  show ?case
  proof (cases out)
    case (Inl err)
    then have "err = NoChildException" using Cons.prems o os by simp
    then show ?thesis using Cons.IH[OF all, of acc] o os Inl by simp
  next
    case (Inr child)
    then show ?thesis using Cons.IH[OF all, of "acc @ [child]"] o os by simp
  qed
qed

lemma spec_attempts_length: "length (fst (spec_attempts f vs e)) = length vs"
proof (induction vs arbitrary: e)
  case Nil
  then show ?case by simp
next
  case (Cons v vs)
  obtain out e1 where o: "f v e = (out, e1)" by (cases "f v e")
  obtain outs e2 where os: "spec_attempts f vs e1 = (outs, e2)" by (cases "spec_attempts f vs e1")
  show ?case using Cons.IH[of e1] o os by simp
qed

lemma spec_attempts_outcomes:
  "list_all2 (\<lambda>p out. \<exists>ep. out = fst (f p ep)) vs (fst (spec_attempts f vs e))"
proof (induction vs arbitrary: e)
  case Nil
  then show ?case by simp
next
  case (Cons v vs)
  obtain out e1 where o: "f v e = (out, e1)" by (cases "f v e")
  obtain outs e2 where os: "spec_attempts f vs e1 = (outs, e2)" by (cases "spec_attempts f vs e1")
  have "\<exists>ep. out = fst (f v ep)" using o by (metis fst_conv)
  then show ?case using Cons.IH[of e1] o os by simp
qed

lemma staged_derives:
  "list_all2 R vs outs \<Longrightarrow> c \<in> set (staged outs) \<Longrightarrow> \<exists>p\<in>set vs. R p (Inr c)"
proof (induction vs outs rule: list_all2_induct)
  case Nil
  then show ?case by simp
next
  case (Cons x xs y ys)
  then show ?case by (cases y) auto
qed

lemma staged_length: "length (staged outs) \<le> length outs"
  by (induction outs rule: staged.induct) auto


section \<open>One time step\<close>

lemma spec_attempts_all:
  assumes "\<And>p ep. P (fst (f p ep))"
  shows "\<forall>out\<in>set (fst (spec_attempts f vs e)). P out"
proof (induction vs arbitrary: e)
  case Nil
  then show ?case by simp
next
  case (Cons v vs)
  obtain out e1 where o: "f v e = (out, e1)" by (cases "f v e")
  obtain outs e2 where os: "spec_attempts f vs e1 = (outs, e2)" by (cases "spec_attempts f vs e1")
  have "P out" using assms[of v e] o by simp
  then show ?case using Cons.IH[of e1] o os by simp
qed

lemma SimpleVirus_reproduce_no_error:
  "fst (SimpleVirus_reproduce v pd e) = Inl err \<Longrightarrow> err = NoChildException"
  by (simp add: SimpleVirus_reproduce_cases split: if_splits)

lemma SimpleVirus_attempts_no_error:
  "\<forall>out\<in>set (fst (spec_attempts (\<lambda>v. SimpleVirus_reproduce v pd) vs e)).
     \<forall>err. out = Inl err \<longrightarrow> err = NoChildException"
  by (rule spec_attempts_all) (use SimpleVirus_reproduce_no_error in blast)

lemma ResistantVirus_reproduce_no_error:
  assumes a: "fst (ResistantVirus_reproduce v pd ads e) = Inl err"
  shows "err = NoChildException"
proof (cases "\<forall>d\<in>set ads. isResistantTo v d = Some True")
  case False
  then have "\<exists>d\<in>set ads. isResistantTo v d \<noteq> Some True" by blast
  from ResistantVirus_reproduce_blocked[OF this, of pd e] a show ?thesis by simp
next
  case gate: True
  show ?thesis
  proof (cases "draws e (cursor e) \<le> maxBirthProb v * (1 - pd)")
    case True
    from ResistantVirus_reproduce_child[OF gate True] obtain c e' where
      "ResistantVirus_reproduce v pd ads e = (Inr c, e')" by blast
    with a show ?thesis by simp
  next
    case False
    from ResistantVirus_reproduce_fail[OF gate False] a show ?thesis by simp
  qed
qed

lemma ResistantVirus_attempts_no_error:
  "\<forall>out\<in>set (fst (spec_attempts (\<lambda>v. ResistantVirus_reproduce v pd ads) vs e)).
     \<forall>err. out = Inl err \<longrightarrow> err = NoChildException"
  by (rule spec_attempts_all) (use ResistantVirus_reproduce_no_error in blast)


lemma Patient_update_phases:
  assumes cl: "clear_loop (viruses h) (viruses h) e = (Inr s, e1)"
  shows "Patient_update h e =
     (if maxPop h = 0 then (Inl ZeroDivisionError, h\<lparr>viruses := s\<rparr>, e1)
      else (Inr (int (length (s @ staged (fst (spec_attempts
                 (\<lambda>v. SimpleVirus_reproduce v (real (length s) / real_of_int (maxPop h))) s e1))))),
            h\<lparr>viruses := s @ staged (fst (spec_attempts
                 (\<lambda>v. SimpleVirus_reproduce v (real (length s) / real_of_int (maxPop h))) s e1))\<rparr>,
            snd (spec_attempts
                 (\<lambda>v. SimpleVirus_reproduce v (real (length s) / real_of_int (maxPop h))) s e1)))"
proof (cases "maxPop h = 0")
  case True
  then show ?thesis using cl by (simp add: Patient_update_def getters true_div_def)
next
  case False
  let ?pd = "real (length s) / real_of_int (maxPop h)"
  have rl: "reproduce_loop (\<lambda>v. SimpleVirus_reproduce v ?pd) s [] e1 =
      (Inr ([] @ staged (fst (spec_attempts (\<lambda>v. SimpleVirus_reproduce v ?pd) s e1))),
       snd (spec_attempts (\<lambda>v. SimpleVirus_reproduce v ?pd) s e1))"
    by (rule reproduce_loop_attempts[OF SimpleVirus_attempts_no_error])
  show ?thesis using cl False rl by (simp add: Patient_update_def getters true_div_def)
qed

lemma TreatedPatient_update_phases:
  assumes cl: "clear_loop (viruses h) (viruses h) e = (Inr s, e1)"
  shows "TreatedPatient_update h e =
     (if maxPop h = 0 then (Inl ZeroDivisionError, h\<lparr>viruses := s\<rparr>, e1)
      else (Inr (int (length (s @ staged (fst (spec_attempts
                 (\<lambda>v. ResistantVirus_reproduce v (real (length s) / real_of_int (maxPop h))
                         (prescriptions h)) s e1))))),
            h\<lparr>viruses := s @ staged (fst (spec_attempts
                 (\<lambda>v. ResistantVirus_reproduce v (real (length s) / real_of_int (maxPop h))
                         (prescriptions h)) s e1))\<rparr>,
            snd (spec_attempts
                 (\<lambda>v. ResistantVirus_reproduce v (real (length s) / real_of_int (maxPop h))
                         (prescriptions h)) s e1)))"
proof (cases "maxPop h = 0")
  case True
  then show ?thesis using cl by (simp add: TreatedPatient_update_def getters true_div_def)
next
  case False
  let ?pd = "real (length s) / real_of_int (maxPop h)"
  let ?f = "\<lambda>v. ResistantVirus_reproduce v ?pd (prescriptions h)"
  have rl: "reproduce_loop ?f s [] e1 =
      (Inr ([] @ staged (fst (spec_attempts ?f s e1))), snd (spec_attempts ?f s e1))"
    by (rule reproduce_loop_attempts[OF ResistantVirus_attempts_no_error])
  show ?thesis using cl False rl by (simp add: TreatedPatient_update_def getters true_div_def)
qed


lemma staged_from_survivor:
  assumes "c \<in> set (staged (fst (spec_attempts f vs e)))"
  shows "\<exists>p\<in>set vs. \<exists>ep. Inr c = fst (f p ep)"
proof -
  have "list_all2 (\<lambda>p out. \<exists>ep. out = fst (f p ep)) vs (fst (spec_attempts f vs e))"
    by (rule spec_attempts_outcomes)
  from staged_derives[OF this assms] show ?thesis .
qed

lemma spec_attempts_fresh:
  fixes f :: "'a SimpleVirus_scheme \<Rightarrow> env \<Rightarrow> (error + 'a SimpleVirus_scheme) \<times> env"
  assumes child: "\<And>p ep c eq. f p ep = (Inr c, eq) \<Longrightarrow> next_oid ep \<le> oid c"
    and mono: "\<And>p ep. next_oid ep \<le> next_oid (snd (f p ep))"
  shows "\<forall>c\<in>set (staged (fst (spec_attempts f vs e))). next_oid e \<le> oid c"
proof (induction vs arbitrary: e)
  case Nil
  then show ?case by simp
next
  case (Cons v vs)
  obtain out e1 where o: "f v e = (out, e1)" by (cases "f v e")
  obtain outs e2 where os: "spec_attempts f vs e1 = (outs, e2)" by (cases "spec_attempts f vs e1")
  have le: "next_oid e \<le> next_oid e1" using mono[of e v] o by simp
  have rest: "\<forall>c\<in>set (staged outs). next_oid e \<le> oid c"
    using Cons.IH[of e1] os le by auto
  show ?case
  proof (cases out)
    case (Inl err)
    then show ?thesis using o os rest by simp
  next
    case (Inr c)
    then have "next_oid e \<le> oid c" using child[of v e c e1] o by simp
    then show ?thesis using o os rest Inr by simp
  qed
qed

lemma SimpleVirus_offspring_fresh:
  "\<forall>c\<in>set (staged (fst (spec_attempts (\<lambda>v. SimpleVirus_reproduce v pd) vs e))). next_oid e \<le> oid c"
proof (rule spec_attempts_fresh)
  fix p ep c eq
  assume "SimpleVirus_reproduce p pd ep = (Inr c, eq)"
  then show "next_oid ep \<le> oid c" by (auto simp: SimpleVirus_reproduce_cases split: if_splits)
next
  fix p ep
  show "next_oid ep \<le> next_oid (snd (SimpleVirus_reproduce p pd ep))"
    by (simp add: SimpleVirus_reproduce_cases)
qed

lemma ResistantVirus_reproduce_shape:
  "(\<exists>e'. ResistantVirus_reproduce v pd ads e = (Inl NoChildException, e') \<and> next_oid e' = next_oid e)
   \<or> (\<exists>c e'. ResistantVirus_reproduce v pd ads e = (Inr c, e') \<and> oid c = next_oid e
         \<and> next_oid e' = next_oid e + 1)"
proof (cases "\<forall>d\<in>set ads. isResistantTo v d = Some True")
  case False
  then have "\<exists>d\<in>set ads. isResistantTo v d \<noteq> Some True" by blast
  from ResistantVirus_reproduce_blocked[OF this, of pd e] show ?thesis by simp
next
  case gate: True
  show ?thesis
  proof (cases "draws e (cursor e) \<le> maxBirthProb v * (1 - pd)")
    case True
    from ResistantVirus_reproduce_child[OF gate True] show ?thesis by auto
  next
    case False
    from ResistantVirus_reproduce_fail[OF gate False] show ?thesis by simp
  qed
qed

lemma ResistantVirus_offspring_fresh:
  "\<forall>c\<in>set (staged (fst (spec_attempts (\<lambda>v. ResistantVirus_reproduce v pd ads) vs e))).
     next_oid e \<le> oid c"
proof (rule spec_attempts_fresh)
  fix p ep c eq
  assume "ResistantVirus_reproduce p pd ads ep = (Inr c, eq)"
  then show "next_oid ep \<le> oid c" using ResistantVirus_reproduce_shape[of p pd ads ep] by auto
next
  fix p ep
  show "next_oid ep \<le> next_oid (snd (ResistantVirus_reproduce p pd ads ep))"
    using ResistantVirus_reproduce_shape[of p pd ads ep] by auto
qed

lemma Patient_update_spec:
  fixes h :: "SimpleVirus Patient"
  shows "\<exists>survivors.
      mset survivors = mset (spec_survivors (viruses h) (draws e) (cursor e))
    \<and> (distinct (viruses h) \<longrightarrow> survivors = spec_survivors (viruses h) (draws e) (cursor e))
    \<and> set survivors \<subseteq> set (viruses h)
    \<and> (maxPop h = 0 \<longrightarrow> Patient_update h e =
          (Inl ZeroDivisionError, h\<lparr>viruses := survivors\<rparr>,
           e\<lparr>cursor := cursor e + length (viruses h)\<rparr>))
    \<and> (maxPop h \<noteq> 0 \<longrightarrow>
         (\<exists>popDensity outs e2.
             popDensity = real (length survivors) / real_of_int (maxPop h)
           \<and> spec_attempts (\<lambda>v. SimpleVirus_reproduce v popDensity) survivors
                 (e\<lparr>cursor := cursor e + length (viruses h)\<rparr>) = (outs, e2)
           \<and> Patient_update h e =
               (Inr (int (length (survivors @ staged outs))),
                h\<lparr>viruses := survivors @ staged outs\<rparr>, e2)
           \<and> (\<forall>c\<in>set (staged outs). \<exists>p\<in>set survivors. \<exists>ep.
                  Inr c = fst (SimpleVirus_reproduce p popDensity ep))
           \<and> ((\<forall>v\<in>set (viruses h). oid v < next_oid e) \<longrightarrow>
                  (\<forall>c\<in>set (staged outs). c \<notin> set (viruses h)))))"
proof -
  let ?e1 = "e\<lparr>cursor := cursor e + length (viruses h)\<rparr>"
  from clear_phase[of "viruses h" e] obtain s where
    cl: "clear_loop (viruses h) (viruses h) e = (Inr s, ?e1)"
    and m: "mset s = mset (spec_survivors (viruses h) (draws e) (cursor e))"
    and d: "distinct (viruses h) \<longrightarrow> s = spec_survivors (viruses h) (draws e) (cursor e)"
    by blast
  have sub: "set s \<subseteq> set (viruses h)"
    using spec_survivors_subset[of "viruses h" "draws e" "cursor e"] mset_eq_setD[OF m] by simp
  let ?pd = "real (length s) / real_of_int (maxPop h)"
  let ?f = "\<lambda>v. SimpleVirus_reproduce v ?pd"
  obtain outs e2 where at: "spec_attempts ?f s ?e1 = (outs, e2)"
    by (cases "spec_attempts ?f s ?e1")
  have zero: "Patient_update h e = (Inl ZeroDivisionError, h\<lparr>viruses := s\<rparr>, ?e1)"
    if "maxPop h = 0"
    using Patient_update_phases[OF cl] that by simp
  have upd: "Patient_update h e =
      (Inr (int (length (s @ staged outs))), h\<lparr>viruses := s @ staged outs\<rparr>, e2)"
    if "maxPop h \<noteq> 0"
    using Patient_update_phases[OF cl] that at by simp
  have der: "\<forall>c\<in>set (staged outs). \<exists>p\<in>set s. \<exists>ep. Inr c = fst (?f p ep)"
    using staged_from_survivor[of _ ?f s ?e1] at by simp
  have fresh: "\<forall>c\<in>set (staged outs). c \<notin> set (viruses h)"
    if "\<forall>v\<in>set (viruses h). oid v < next_oid e"
  proof
    fix c assume "c \<in> set (staged outs)"
    then have "next_oid e \<le> oid c"
      using SimpleVirus_offspring_fresh[of ?pd s ?e1] at by simp
    then show "c \<notin> set (viruses h)" using that by fastforce
  qed
  show ?thesis
    using m d sub zero upd at der fresh by blast
qed


lemma TreatedPatient_update_spec:
  fixes g :: "ResistantVirus TreatedPatient"
  shows "\<exists>survivors.
      mset survivors = mset (spec_survivors (viruses g) (draws e) (cursor e))
    \<and> (distinct (viruses g) \<longrightarrow> survivors = spec_survivors (viruses g) (draws e) (cursor e))
    \<and> set survivors \<subseteq> set (viruses g)
    \<and> (maxPop g = 0 \<longrightarrow> TreatedPatient_update g e =
          (Inl ZeroDivisionError, g\<lparr>viruses := survivors\<rparr>,
           e\<lparr>cursor := cursor e + length (viruses g)\<rparr>))
    \<and> (maxPop g \<noteq> 0 \<longrightarrow>
         (\<exists>popDensity outs e2.
             popDensity = real (length survivors) / real_of_int (maxPop g)
           \<and> spec_attempts (\<lambda>v. ResistantVirus_reproduce v popDensity (prescriptions g))
                 survivors (e\<lparr>cursor := cursor e + length (viruses g)\<rparr>) = (outs, e2)
           \<and> TreatedPatient_update g e =
               (Inr (int (length (survivors @ staged outs))),
                g\<lparr>viruses := survivors @ staged outs\<rparr>, e2)
           \<and> (\<forall>c\<in>set (staged outs). \<exists>p\<in>set survivors. \<exists>ep.
                  Inr c = fst (ResistantVirus_reproduce p popDensity (prescriptions g) ep))
           \<and> ((\<forall>v\<in>set (viruses g). oid v < next_oid e) \<longrightarrow>
                  (\<forall>c\<in>set (staged outs). c \<notin> set (viruses g)))))"
proof -
  let ?e1 = "e\<lparr>cursor := cursor e + length (viruses g)\<rparr>"
  from clear_phase[of "viruses g" e] obtain s where
    cl: "clear_loop (viruses g) (viruses g) e = (Inr s, ?e1)"
    and m: "mset s = mset (spec_survivors (viruses g) (draws e) (cursor e))"
    and d: "distinct (viruses g) \<longrightarrow> s = spec_survivors (viruses g) (draws e) (cursor e)"
    by blast
  have sub: "set s \<subseteq> set (viruses g)"
    using spec_survivors_subset[of "viruses g" "draws e" "cursor e"] mset_eq_setD[OF m] by simp
  let ?pd = "real (length s) / real_of_int (maxPop g)"
  let ?f = "\<lambda>v. ResistantVirus_reproduce v ?pd (prescriptions g)"
  obtain outs e2 where at: "spec_attempts ?f s ?e1 = (outs, e2)"
    by (cases "spec_attempts ?f s ?e1")
  have zero: "TreatedPatient_update g e = (Inl ZeroDivisionError, g\<lparr>viruses := s\<rparr>, ?e1)"
    if "maxPop g = 0"
    using TreatedPatient_update_phases[OF cl] that by simp
  have upd: "TreatedPatient_update g e =
      (Inr (int (length (s @ staged outs))), g\<lparr>viruses := s @ staged outs\<rparr>, e2)"
    if "maxPop g \<noteq> 0"
    using TreatedPatient_update_phases[OF cl] that at by simp
  have der: "\<forall>c\<in>set (staged outs). \<exists>p\<in>set s. \<exists>ep. Inr c = fst (?f p ep)"
    using staged_from_survivor[of _ ?f s ?e1] at by simp
  have fresh: "\<forall>c\<in>set (staged outs). c \<notin> set (viruses g)"
    if "\<forall>v\<in>set (viruses g). oid v < next_oid e"
  proof
    fix c assume "c \<in> set (staged outs)"
    then have "next_oid e \<le> oid c"
      using ResistantVirus_offspring_fresh[of ?pd "prescriptions g" s ?e1] at by simp
    then show "c \<notin> set (viruses g)" using that by fastforce
  qed
  show ?thesis
    using m d sub zero upd at der fresh by blast
qed

text \<open>
  C1. One call of \<open>update\<close>, on a Patient \<open>h\<close> or a TreatedPatient \<open>g\<close>, for any
  sequence of draws. The clearance loop consumes one draw per particle of the pre-step
  population and leaves the survivors: the particles of \<open>spec_survivors\<close>, where the
  particle at position \<open>i\<close> stays exactly when its own draw exceeds its \<open>clearProb\<close>
  (as a list when no object occurs twice in the population, as a multiset in general).
  With \<open>maxPop \<noteq> 0\<close> the density is computed once, as the number of survivors over
  \<open>maxPop\<close>; exactly the survivors make one reproduction attempt each at that density
  (\<open>spec_attempts\<close>); the committed population is the survivors followed by the staged
  offspring, and the integer returned is its length. Every staged offspring is the child
  that \<open>reproduce\<close> returned for a survivor at that density, and, identities below
  \<open>next_oid\<close> being the ones in use, no staged offspring is a particle of the pre-step
  population. With \<open>maxPop = 0\<close> the call raises ZeroDivisionError after the clearance.
\<close>

theorem update_phases:
  fixes h :: "SimpleVirus Patient" and g :: "ResistantVirus TreatedPatient"
  shows "(\<exists>survivors.
      mset survivors = mset (spec_survivors (viruses h) (draws e) (cursor e))
    \<and> (distinct (viruses h) \<longrightarrow> survivors = spec_survivors (viruses h) (draws e) (cursor e))
    \<and> set survivors \<subseteq> set (viruses h)
    \<and> (maxPop h = 0 \<longrightarrow> Patient_update h e =
          (Inl ZeroDivisionError, h\<lparr>viruses := survivors\<rparr>,
           e\<lparr>cursor := cursor e + length (viruses h)\<rparr>))
    \<and> (maxPop h \<noteq> 0 \<longrightarrow>
         (\<exists>popDensity outs e2.
             popDensity = real (length survivors) / real_of_int (maxPop h)
           \<and> spec_attempts (\<lambda>v. SimpleVirus_reproduce v popDensity) survivors
                 (e\<lparr>cursor := cursor e + length (viruses h)\<rparr>) = (outs, e2)
           \<and> Patient_update h e =
               (Inr (int (length (survivors @ staged outs))),
                h\<lparr>viruses := survivors @ staged outs\<rparr>, e2)
           \<and> (\<forall>c\<in>set (staged outs). \<exists>p\<in>set survivors. \<exists>ep.
                  Inr c = fst (SimpleVirus_reproduce p popDensity ep))
           \<and> ((\<forall>v\<in>set (viruses h). oid v < next_oid e) \<longrightarrow>
                  (\<forall>c\<in>set (staged outs). c \<notin> set (viruses h))))))
   \<and> (\<exists>survivors.
      mset survivors = mset (spec_survivors (viruses g) (draws e) (cursor e))
    \<and> (distinct (viruses g) \<longrightarrow> survivors = spec_survivors (viruses g) (draws e) (cursor e))
    \<and> set survivors \<subseteq> set (viruses g)
    \<and> (maxPop g = 0 \<longrightarrow> TreatedPatient_update g e =
          (Inl ZeroDivisionError, g\<lparr>viruses := survivors\<rparr>,
           e\<lparr>cursor := cursor e + length (viruses g)\<rparr>))
    \<and> (maxPop g \<noteq> 0 \<longrightarrow>
         (\<exists>popDensity outs e2.
             popDensity = real (length survivors) / real_of_int (maxPop g)
           \<and> spec_attempts (\<lambda>v. ResistantVirus_reproduce v popDensity (prescriptions g))
                 survivors (e\<lparr>cursor := cursor e + length (viruses g)\<rparr>) = (outs, e2)
           \<and> TreatedPatient_update g e =
               (Inr (int (length (survivors @ staged outs))),
                g\<lparr>viruses := survivors @ staged outs\<rparr>, e2)
           \<and> (\<forall>c\<in>set (staged outs). \<exists>p\<in>set survivors. \<exists>ep.
                  Inr c = fst (ResistantVirus_reproduce p popDensity (prescriptions g) ep))
           \<and> ((\<forall>v\<in>set (viruses g). oid v < next_oid e) \<longrightarrow>
                  (\<forall>c\<in>set (staged outs). c \<notin> set (viruses g))))))"
  using Patient_update_spec[of h e] TreatedPatient_update_spec[of g e] by (rule conjI)


theorem update_phases_witness:
  "distinct
     [\<lparr>oid = 0, maxBirthProb = 1, clearProb = 1/2\<rparr>, \<lparr>oid = 1, maxBirthProb = 1, clearProb = 0\<rparr>]
   \<and> Patient_update
       \<lparr>viruses = [\<lparr>oid = 0, maxBirthProb = 1, clearProb = 1/2\<rparr>,
                   \<lparr>oid = 1, maxBirthProb = 1, clearProb = 0\<rparr>], maxPop = 4\<rparr>
       \<lparr>draws = (\<lambda>n. 1/4), cursor = 0, next_oid = 2\<rparr>
     = (Inr 2,
        \<lparr>viruses = [\<lparr>oid = 1, maxBirthProb = 1, clearProb = 0\<rparr>,
                    \<lparr>oid = 2, maxBirthProb = 1, clearProb = 0\<rparr>], maxPop = 4\<rparr>,
        \<lparr>draws = (\<lambda>n. 1/4), cursor = 3, next_oid = 3\<rparr>)
   \<and> TreatedPatient_update
       \<lparr>viruses = [\<lparr>oid = 0, maxBirthProb = 1, clearProb = 0,
                     resistances = [(''D'', True)], mutProb = 0\<rparr>,
                   \<lparr>oid = 1, maxBirthProb = 1, clearProb = 0,
                     resistances = [(''D'', False)], mutProb = 0\<rparr>],
        maxPop = 4, prescriptions = [''D'']\<rparr>
       \<lparr>draws = (\<lambda>n. 1/4), cursor = 0, next_oid = 2\<rparr>
     = (Inr 3,
        \<lparr>viruses = [\<lparr>oid = 0, maxBirthProb = 1, clearProb = 0,
                     resistances = [(''D'', True)], mutProb = 0\<rparr>,
                   \<lparr>oid = 1, maxBirthProb = 1, clearProb = 0,
                     resistances = [(''D'', False)], mutProb = 0\<rparr>,
                   \<lparr>oid = 2, maxBirthProb = 1, clearProb = 0,
                     resistances = [(''D'', True)], mutProb = 0\<rparr>],
        maxPop = 4, prescriptions = [''D'']\<rparr>,
        \<lparr>draws = (\<lambda>n. 1/4), cursor = 4, next_oid = 3\<rparr>)"
proof -
  let ?h = "\<lparr>viruses = [\<lparr>oid = 0, maxBirthProb = 1, clearProb = 1/2\<rparr>,
                   \<lparr>oid = 1, maxBirthProb = 1, clearProb = 0\<rparr>], maxPop = 4\<rparr>"
  let ?g = "\<lparr>viruses = [\<lparr>oid = 0, maxBirthProb = 1, clearProb = 0,
                     resistances = [(''D'', True)], mutProb = 0\<rparr>,
                   \<lparr>oid = 1, maxBirthProb = 1, clearProb = 0,
                     resistances = [(''D'', False)], mutProb = 0\<rparr>],
        maxPop = 4, prescriptions = [''D'']\<rparr>"
  let ?e = "\<lparr>draws = (\<lambda>n. 1/4 :: real), cursor = 0, next_oid = 2\<rparr>"
  have p: "Patient_update ?h ?e
     = (Inr 2,
        \<lparr>viruses = [\<lparr>oid = 1, maxBirthProb = 1, clearProb = 0\<rparr>,
                    \<lparr>oid = 2, maxBirthProb = 1, clearProb = 0\<rparr>], maxPop = 4\<rparr>,
        \<lparr>draws = (\<lambda>n. 1/4), cursor = 3, next_oid = 3\<rparr>)"
    using update_phases[of ?h ?e ?g, THEN conjunct1]
    apply (elim exE conjE)
    apply (simp add: SimpleVirus_reproduce_cases)
    apply (elim exE conjE)
    apply clarsimp
    done
  have q: "TreatedPatient_update ?g ?e
     = (Inr 3,
        \<lparr>viruses = [\<lparr>oid = 0, maxBirthProb = 1, clearProb = 0,
                     resistances = [(''D'', True)], mutProb = 0\<rparr>,
                   \<lparr>oid = 1, maxBirthProb = 1, clearProb = 0,
                     resistances = [(''D'', False)], mutProb = 0\<rparr>,
                   \<lparr>oid = 2, maxBirthProb = 1, clearProb = 0,
                     resistances = [(''D'', True)], mutProb = 0\<rparr>],
        maxPop = 4, prescriptions = [''D'']\<rparr>,
        \<lparr>draws = (\<lambda>n. 1/4), cursor = 4, next_oid = 3\<rparr>)"
    using update_phases[of ?h ?e ?g, THEN conjunct2]
    apply (elim exE conjE)
    apply (simp add: ResistantVirus_reproduce_def random_random_def ResistantVirus_init_def
        getters isResistantTo_def py_not_def)
    apply (elim exE conjE)
    apply (clarsimp simp: ResistantVirus_reproduce_def random_random_def ResistantVirus_init_def
        getters isResistantTo_def py_not_def)
    done
  show ?thesis using p q by simp
qed

section \<open>Hosts whose particles all clear\<close>

lemma Patient_update_all_clear:
  fixes h :: "SimpleVirus Patient"
  assumes "unit_draws e" and "\<forall>v\<in>set (viruses h). clearProb v = 1"
  shows "Patient_update h e =
     (if maxPop h = 0 then Inl ZeroDivisionError else Inr 0,
      h\<lparr>viruses := []\<rparr>, e\<lparr>cursor := cursor e + length (viruses h)\<rparr>)"
proof -
  let ?e1 = "e\<lparr>cursor := cursor e + length (viruses h)\<rparr>"
  have le: "\<And>n. draws e n \<le> 1" using assms(1) by (simp add: unit_draws_def less_imp_le)
  have nil: "spec_survivors (viruses h) (draws e) (cursor e) = []"
    using le assms(2) by (rule spec_survivors_nil)
  from clear_phase[of "viruses h" e] nil have
    cl: "clear_loop (viruses h) (viruses h) e = (Inr [], ?e1)" by auto
  show ?thesis using Patient_update_phases[OF cl] by simp
qed

lemma TreatedPatient_update_all_clear:
  fixes g :: "ResistantVirus TreatedPatient"
  assumes "unit_draws e" and "\<forall>v\<in>set (viruses g). clearProb v = 1"
  shows "TreatedPatient_update g e =
     (if maxPop g = 0 then Inl ZeroDivisionError else Inr 0,
      g\<lparr>viruses := []\<rparr>, e\<lparr>cursor := cursor e + length (viruses g)\<rparr>)"
proof -
  let ?e1 = "e\<lparr>cursor := cursor e + length (viruses g)\<rparr>"
  have le: "\<And>n. draws e n \<le> 1" using assms(1) by (simp add: unit_draws_def less_imp_le)
  have nil: "spec_survivors (viruses g) (draws e) (cursor e) = []"
    using le assms(2) by (rule spec_survivors_nil)
  from clear_phase[of "viruses g" e] nil have
    cl: "clear_loop (viruses g) (viruses g) e = (Inr [], ?e1)" by auto
  show ?thesis using TreatedPatient_update_phases[OF cl] by simp
qed

text \<open>
  C5. When every particle of the host has \<open>clearProb = 1\<close> and every draw lies in
  \<open>[0, 1)\<close>, one \<open>update\<close> empties the population: each particle clears, and the
  call consumes the clearance draws only, no particle being left to reproduce. The call
  returns 0; this is stated for \<open>maxPop \<noteq> 0\<close>, the hosts for which \<open>update\<close> returns at
  all (with \<open>maxPop = 0\<close> the density computation raises, after the population was emptied).
\<close>

theorem all_clear_returns_zero:
  fixes h :: "SimpleVirus Patient" and g :: "ResistantVirus TreatedPatient"
  assumes "unit_draws e"
    and "\<forall>v\<in>set (viruses h). clearProb v = 1"
    and "\<forall>v\<in>set (viruses g). clearProb v = 1"
  shows "getViruses (fst (snd (Patient_update h e))) = []
    \<and> getViruses (fst (snd (TreatedPatient_update g e))) = []
    \<and> (maxPop h \<noteq> 0 \<longrightarrow> Patient_update h e =
          (Inr 0, h\<lparr>viruses := []\<rparr>, e\<lparr>cursor := cursor e + length (viruses h)\<rparr>))
    \<and> (maxPop g \<noteq> 0 \<longrightarrow> TreatedPatient_update g e =
          (Inr 0, g\<lparr>viruses := []\<rparr>, e\<lparr>cursor := cursor e + length (viruses g)\<rparr>))"
  using Patient_update_all_clear[OF assms(1,2)] TreatedPatient_update_all_clear[OF assms(1,3)]
  by (simp add: getters)

theorem all_clear_returns_zero_witness:
  "unit_draws \<lparr>draws = (\<lambda>n. 1/2), cursor = 0, next_oid = 2\<rparr>
   \<and> Patient_update
       \<lparr>viruses = [\<lparr>oid = 0, maxBirthProb = 1, clearProb = 1\<rparr>,
                   \<lparr>oid = 1, maxBirthProb = 1/2, clearProb = 1\<rparr>], maxPop = 4\<rparr>
       \<lparr>draws = (\<lambda>n. 1/2), cursor = 0, next_oid = 2\<rparr>
     = (Inr 0, \<lparr>viruses = [], maxPop = 4\<rparr>, \<lparr>draws = (\<lambda>n. 1/2), cursor = 2, next_oid = 2\<rparr>)
   \<and> TreatedPatient_update
       \<lparr>viruses = [\<lparr>oid = 0, maxBirthProb = 1, clearProb = 1,
                     resistances = [(''D'', True)], mutProb = 0\<rparr>],
        maxPop = 4, prescriptions = []\<rparr>
       \<lparr>draws = (\<lambda>n. 1/2), cursor = 0, next_oid = 2\<rparr>
     = (Inr 0, \<lparr>viruses = [], maxPop = 4, prescriptions = []\<rparr>,
        \<lparr>draws = (\<lambda>n. 1/2), cursor = 1, next_oid = 2\<rparr>)"
proof -
  let ?h = "\<lparr>viruses = [\<lparr>oid = 0, maxBirthProb = 1, clearProb = 1\<rparr>,
                   \<lparr>oid = 1, maxBirthProb = 1/2, clearProb = 1\<rparr>], maxPop = 4\<rparr>"
  let ?g = "\<lparr>viruses = [\<lparr>oid = 0, maxBirthProb = 1, clearProb = 1,
                     resistances = [(''D'', True)], mutProb = 0\<rparr>],
        maxPop = 4, prescriptions = []\<rparr>"
  let ?e = "\<lparr>draws = (\<lambda>n. 1/2 :: real), cursor = 0, next_oid = 2\<rparr>"
  have u: "unit_draws ?e" by (simp add: unit_draws_def)
  have a: "\<forall>v\<in>set (viruses ?h). clearProb v = 1" by simp
  have b: "\<forall>v\<in>set (viruses ?g). clearProb v = 1" by simp
  from all_clear_returns_zero[OF u a b] u show ?thesis by simp
qed

section \<open>Construction and the capacity\<close>

lemma Patient_update_result:
  "fst (Patient_update h e) = Inl ZeroDivisionError \<and> maxPop h = 0
   \<or> (\<exists>n. fst (Patient_update h e) = Inr n) \<and> maxPop h \<noteq> 0"
proof -
  from clear_phase[of "viruses h" e] obtain s where
    cl: "clear_loop (viruses h) (viruses h) e = (Inr s, e\<lparr>cursor := cursor e + length (viruses h)\<rparr>)"
    by blast
  show ?thesis using Patient_update_phases[OF cl] by (cases "maxPop h = 0") simp_all
qed

lemma TreatedPatient_update_result:
  "fst (TreatedPatient_update h e) = Inl ZeroDivisionError \<and> maxPop h = 0
   \<or> (\<exists>n. fst (TreatedPatient_update h e) = Inr n) \<and> maxPop h \<noteq> 0"
proof -
  from clear_phase[of "viruses h" e] obtain s where
    cl: "clear_loop (viruses h) (viruses h) e = (Inr s, e\<lparr>cursor := cursor e + length (viruses h)\<rparr>)"
    by blast
  show ?thesis using TreatedPatient_update_phases[OF cl] by (cases "maxPop h = 0") simp_all
qed


text \<open>
  C2 (as the code has it). Constructing a host never fails: \<open>Patient\<close> and
  \<open>TreatedPatient\<close> store the population and any \<open>maxPop\<close>, zero and negative included,
  without a check. With \<open>maxPop = 0\<close> every \<open>update\<close> raises ZeroDivisionError at the
  density computation; with any other \<open>maxPop\<close>, negative included, \<open>update\<close> returns an
  integer.
\<close>

theorem construction_never_fails:
  "getViruses (Patient_init vs mp) = vs \<and> getMaxPop (Patient_init vs mp) = mp
   \<and> getViruses (TreatedPatient_init ws mp) = ws \<and> getMaxPop (TreatedPatient_init ws mp) = mp
   \<and> getPrescriptions (TreatedPatient_init ws mp) = []
   \<and> (mp = 0 \<longrightarrow>
         fst (Patient_update (Patient_init vs mp) e) = Inl ZeroDivisionError
       \<and> fst (TreatedPatient_update (TreatedPatient_init ws mp) e) = Inl ZeroDivisionError)
   \<and> (mp \<noteq> 0 \<longrightarrow>
         (\<exists>n. fst (Patient_update (Patient_init vs mp) e) = Inr n)
       \<and> (\<exists>n. fst (TreatedPatient_update (TreatedPatient_init ws mp) e) = Inr n))"
proof -
  have a: "maxPop (Patient_init vs mp) = mp" by (simp add: Patient_init_def)
  have b: "maxPop (TreatedPatient_init ws mp) = mp" by (simp add: TreatedPatient_init_def)
  have p: "mp = 0 \<longrightarrow> fst (Patient_update (Patient_init vs mp) e) = Inl ZeroDivisionError"
    using Patient_update_result[of "Patient_init vs mp" e] a by auto
  have p': "mp \<noteq> 0 \<longrightarrow> (\<exists>n. fst (Patient_update (Patient_init vs mp) e) = Inr n)"
    using Patient_update_result[of "Patient_init vs mp" e] a by auto
  have t: "mp = 0 \<longrightarrow>
      fst (TreatedPatient_update (TreatedPatient_init ws mp) e) = Inl ZeroDivisionError"
    using TreatedPatient_update_result[of "TreatedPatient_init ws mp" e] b by auto
  have t': "mp \<noteq> 0 \<longrightarrow>
      (\<exists>n. fst (TreatedPatient_update (TreatedPatient_init ws mp) e) = Inr n)"
    using TreatedPatient_update_result[of "TreatedPatient_init ws mp" e] b by auto
  show ?thesis
    using p p' t t' by (simp add: Patient_init_def TreatedPatient_init_def getters)
qed

theorem construction_never_fails_witness:
  "fst (Patient_update (Patient_init [] 0) \<lparr>draws = (\<lambda>n. 0), cursor = 0, next_oid = 0\<rparr>)
     = Inl ZeroDivisionError
   \<and> fst (TreatedPatient_update (TreatedPatient_init [] 0)
            \<lparr>draws = (\<lambda>n. 0), cursor = 0, next_oid = 0\<rparr>) = Inl ZeroDivisionError
   \<and> (\<exists>n. fst (Patient_update (Patient_init [] (- 3))
                 \<lparr>draws = (\<lambda>n. 0), cursor = 0, next_oid = 0\<rparr>) = Inr n)
   \<and> (\<exists>n. fst (TreatedPatient_update (TreatedPatient_init [] (- 3))
                 \<lparr>draws = (\<lambda>n. 0), cursor = 0, next_oid = 0\<rparr>) = Inr n)"
  using construction_never_fails[of "[]" 0 "[]" "\<lparr>draws = (\<lambda>n. 0), cursor = 0, next_oid = 0\<rparr>"]
    construction_never_fails[of "[]" "- 3" "[]" "\<lparr>draws = (\<lambda>n. 0), cursor = 0, next_oid = 0\<rparr>"]
  by simp

text \<open>
  The claim as stated fails: a host with \<open>maxPop = 0\<close> is constructed without an error,
  and its \<open>update\<close> runs the clearance phase and then raises ZeroDivisionError; a negative
  \<open>maxPop\<close> is stored as it is.
\<close>

theorem construction_zero_capacity_counterexample:
  "getMaxPop (Patient_init [\<lparr>oid = 0, maxBirthProb = 1, clearProb = 0\<rparr>] 0) = 0
   \<and> Patient_update (Patient_init [\<lparr>oid = 0, maxBirthProb = 1, clearProb = 0\<rparr>] 0)
        \<lparr>draws = (\<lambda>n. 1/2), cursor = 0, next_oid = 1\<rparr>
      = (Inl ZeroDivisionError,
         \<lparr>viruses = [\<lparr>oid = 0, maxBirthProb = 1, clearProb = 0\<rparr>], maxPop = 0\<rparr>,
         \<lparr>draws = (\<lambda>n. 1/2), cursor = 1, next_oid = 1\<rparr>)
   \<and> getMaxPop (TreatedPatient_init [] (- 5)) = - 5
   \<and> TreatedPatient_update (TreatedPatient_init [] 0)
        \<lparr>draws = (\<lambda>n. 1/2), cursor = 0, next_oid = 1\<rparr>
      = (Inl ZeroDivisionError, \<lparr>viruses = [], maxPop = 0, prescriptions = []\<rparr>,
         \<lparr>draws = (\<lambda>n. 1/2), cursor = 0, next_oid = 1\<rparr>)"
  by (simp add: Patient_init_def TreatedPatient_init_def Patient_update_def
      TreatedPatient_update_def getters doesClear_eq true_div_def)

text \<open>
  C3, evaluated where it fails. A particle with \<open>maxBirthProb = 1/2\<close> at
  \<open>popDensity = 1\<close> has \<open>repProb = 0\<close>; on the draw \<open>0.0\<close>, a value of \<open>[0, 1)\<close>, the
  comparison \<open>0.0 <= 0.0\<close> holds and \<open>reproduce\<close> returns an offspring, in the basic and in
  the resistant variant.
\<close>

theorem reproduce_at_capacity_zero_draw:
  "SimpleVirus_reproduce \<lparr>oid = 0, maxBirthProb = 1/2, clearProb = 0\<rparr> 1
       \<lparr>draws = (\<lambda>n. 0), cursor = 0, next_oid = 1\<rparr>
     = (Inr \<lparr>oid = 1, maxBirthProb = 1/2, clearProb = 0\<rparr>,
        \<lparr>draws = (\<lambda>n. 0), cursor = 1, next_oid = 2\<rparr>)
   \<and> ResistantVirus_reproduce
       \<lparr>oid = 0, maxBirthProb = 1/2, clearProb = 0, resistances = [], mutProb = 0\<rparr> 1 []
       \<lparr>draws = (\<lambda>n. 0), cursor = 0, next_oid = 1\<rparr>
     = (Inr \<lparr>oid = 1, maxBirthProb = 1/2, clearProb = 0, resistances = [], mutProb = 0\<rparr>,
        \<lparr>draws = (\<lambda>n. 0), cursor = 1, next_oid = 2\<rparr>)"
  by (simp add: SimpleVirus_reproduce_def ResistantVirus_reproduce_def random_random_def
      SimpleVirus_init_def ResistantVirus_init_def getters)

text \<open>
  C4, evaluated where it fails. A host of one particle with \<open>clearProb = 0\<close> and
  \<open>maxBirthProb = 0\<close>: when the clearance draw is \<open>0.0\<close> the particle is removed and
  \<open>update\<close> returns 0; when the clearance draw is \<open>1/2\<close> and the reproduction draw
  \<open>0.0\<close>, an offspring is added and \<open>update\<close> returns 2.
\<close>

theorem neutral_host_zero_draw:
  "Patient_update \<lparr>viruses = [\<lparr>oid = 0, maxBirthProb = 0, clearProb = 0\<rparr>], maxPop = 10\<rparr>
       \<lparr>draws = (\<lambda>n. 0), cursor = 0, next_oid = 1\<rparr>
     = (Inr 0, \<lparr>viruses = [], maxPop = 10\<rparr>, \<lparr>draws = (\<lambda>n. 0), cursor = 1, next_oid = 1\<rparr>)
   \<and> Patient_update \<lparr>viruses = [\<lparr>oid = 0, maxBirthProb = 0, clearProb = 0\<rparr>], maxPop = 10\<rparr>
       \<lparr>draws = (\<lambda>n. if n = 0 then 1/2 else 0), cursor = 0, next_oid = 1\<rparr>
     = (Inr 2,
        \<lparr>viruses = [\<lparr>oid = 0, maxBirthProb = 0, clearProb = 0\<rparr>,
                    \<lparr>oid = 1, maxBirthProb = 0, clearProb = 0\<rparr>], maxPop = 10\<rparr>,
        \<lparr>draws = (\<lambda>n. if n = 0 then 1/2 else 0), cursor = 2, next_oid = 2\<rparr>)"
  by (simp add: Patient_update_def getters doesClear_eq list_remove_def true_div_def
      SimpleVirus_reproduce_cases)

end
